theory Spec2Isabelle
  imports Main "HOL-Library.Word"
begin

section \<open>Python values and library functions used by app.py\<close>

text \<open>
  Byte strings (\<^verbatim>\<open>bytes\<close>) are lists of 8-bit words. Text strings are \<^typ>\<open>string\<close>;
  every string the program builds or tests is ASCII, and characters outside ASCII are
  left alone by \<open>str_lower\<close>.
\<close>

type_synonym bytes = "8 word list"

text \<open>\<^verbatim>\<open>str.lower()\<close>, on ASCII letters.\<close>

definition lower_char :: "char \<Rightarrow> char" where
  "lower_char c =
     (case map_of (zip ''ABCDEFGHIJKLMNOPQRSTUVWXYZ'' ''abcdefghijklmnopqrstuvwxyz'') c of
        Some l \<Rightarrow> l
      | None \<Rightarrow> c)"

definition str_lower :: "string \<Rightarrow> string" where
  "str_lower s = map lower_char s"

text \<open>\<^verbatim>\<open>str(n)\<close> for an integer: its decimal digits, with a sign when negative.\<close>

definition digit_char :: "nat \<Rightarrow> char" where
  "digit_char d = ''0123456789'' ! d"

fun str_nat :: "nat \<Rightarrow> string" where
  "str_nat n = (if n < 10 then [digit_char n] else str_nat (n div 10) @ [digit_char (n mod 10)])"

declare str_nat.simps [simp del]

definition str :: "int \<Rightarrow> string" where
  "str i = (if i < 0 then CHR ''-'' # str_nat (nat (- i)) else str_nat (nat i))"

text \<open>
  \<^verbatim>\<open>p.rfind(c)\<close> for a one-character needle: the index of the last occurrence, or
  \<open>-1\<close> when there is none.
\<close>

definition rfind :: "string \<Rightarrow> char \<Rightarrow> int" where
  "rfind p c =
     (if c \<in> set p then int (length p) - 1 - int (length (takeWhile (\<lambda>x. x \<noteq> c) (rev p)))
      else - 1)"

text \<open>
  \<^verbatim>\<open>os.path.splitext\<close> on a POSIX system (\<^verbatim>\<open>genericpath._splitext\<close> with separator
  \<^verbatim>\<open>/\<close> and no alternative separator): the extension starts at the last dot, provided
  that dot comes after the last separator and some character between the separator
  and the dot is not itself a dot (leading dots of the base name do not start an
  extension).
\<close>

definition splitext :: "string \<Rightarrow> string \<times> string" where
  "splitext p =
     (let sepIndex = rfind p CHR ''/'';
          dotIndex = rfind p CHR ''.''
      in if dotIndex > sepIndex \<and>
            list_ex (\<lambda>x. x \<noteq> CHR ''.'')
              (take (nat (dotIndex - (sepIndex + 1))) (drop (nat (sepIndex + 1)) p))
         then (take (nat dotIndex) p, drop (nat dotIndex) p)
         else (p, []))"

text \<open>\<^verbatim>\<open>os.path.join(a, b)\<close> on a POSIX system, for two components.\<close>

definition path_join :: "string \<Rightarrow> string \<Rightarrow> string" where
  "path_join a b =
     (if b \<noteq> [] \<and> hd b = CHR ''/'' then b
      else if a = [] \<or> last a = CHR ''/'' then a @ b
      else a @ ''/'' @ b)"

text \<open>
  \<^verbatim>\<open>s.rsplit(sep, 1)\<close> for a one-character separator: the string is cut at the last
  occurrence of the separator; without an occurrence the result is the string alone.
\<close>

definition rsplit1 :: "string \<Rightarrow> char \<Rightarrow> string list" where
  "rsplit1 s sep =
     (if sep \<in> set s
      then (let tl_part = rev (takeWhile (\<lambda>x. x \<noteq> sep) (rev s))
            in [take (length s - length tl_part - 1) s, tl_part])
      else [s])"

text \<open>
  A Python dictionary keeps its keys in insertion order: an association list in which
  assigning to a present key replaces its value in place and assigning to a new key
  appends it.
\<close>

type_synonym 'v dict = "(string \<times> 'v) list"

fun dict_set :: "'v dict \<Rightarrow> string \<Rightarrow> 'v \<Rightarrow> 'v dict" where
  "dict_set [] k v = [(k, v)]"
| "dict_set ((k', v') # d) k v = (if k' = k then (k, v) # d else (k', v') # dict_set d k v)"

definition dict_get :: "'v dict \<Rightarrow> string \<Rightarrow> 'v option" where
  "dict_get d k = map_of d k"

section \<open>Documents, images and the outside world\<close>

text \<open>
  An embedded image as pypdf yields it: the payload (\<^verbatim>\<open>image.data\<close>) and the declared
  name (\<^verbatim>\<open>image.name\<close>).
\<close>

record embedded_image =
  data :: bytes
  name :: string

text \<open>
  \<^verbatim>\<open>reader.pages\<close> and \<^verbatim>\<open>page.images\<close> are computed lazily by pypdf, so a \<^verbatim>\<open>for\<close>
  loop over either can raise part of the way through. An iterable is the list of the
  items it yields and a flag telling whether the iteration ends by raising (after the
  last yielded item) instead of stopping.
\<close>

datatype 'a iterable = Iterable (items: "'a list") (raises: bool)

record page =
  images :: "embedded_image iterable"

record pdf_reader =
  pages :: "page iterable"

text \<open>A decoded picture of the imaging library: its colour mode and its raster.\<close>

record pil_image =
  mode :: string
  pixels :: bytes

text \<open>
  What the program takes from its libraries and its surroundings. A library call that
  can raise returns \<open>None\<close> where it raises.
  \<^item> \<open>pdf_parse\<close>: pypdf's parser on the bytes of a file;
  \<^item> \<open>py_hash\<close>: Python's \<^verbatim>\<open>hash\<close> on \<^verbatim>\<open>bytes\<close>, a machine integer (64 bits);
  \<^item> \<open>pil_open\<close>, \<open>pil_convert\<close>, \<open>pil_save\<close>: \<^verbatim>\<open>Image.open\<close>, \<^verbatim>\<open>img.convert(mode)\<close> and
    \<^verbatim>\<open>img.save(buffer, format=...)\<close> (the bytes left in the buffer);
  \<^item> \<open>writable\<close>: whether a file can be opened for writing at a path;
  \<^item> \<open>removable\<close>: whether \<^verbatim>\<open>os.remove\<close> of an existing file succeeds;
  \<^item> \<open>random_source\<close>: the raw values behind the successive calls of \<^verbatim>\<open>random.randint\<close>;
  \<^item> \<open>cwd\<close>: \<^verbatim>\<open>os.getcwd()\<close> when the module is loaded;
  \<^item> \<open>url_for_download\<close>: \<^verbatim>\<open>url_for("download_file", filename=f, _external=True)\<close>;
  \<^item> \<open>index_html\<close>: the rendered template \<^verbatim>\<open>index.html\<close>.
\<close>

record env =
  pdf_parse :: "bytes \<Rightarrow> pdf_reader option"
  py_hash :: "bytes \<Rightarrow> 64 word"
  pil_open :: "bytes \<Rightarrow> pil_image option"
  pil_convert :: "pil_image \<Rightarrow> string \<Rightarrow> pil_image option"
  pil_save :: "pil_image \<Rightarrow> string \<Rightarrow> bytes option"
  writable :: "string \<Rightarrow> bool"
  removable :: "string \<Rightarrow> bool"
  random_source :: "nat \<Rightarrow> nat"
  cwd :: string
  url_for_download :: "string \<Rightarrow> string"
  index_html :: string

text \<open>
  The state outside the program that it changes: the files on disk, how many random
  values have been drawn, and the messages given to \<^verbatim>\<open>logging.error\<close> (the fixed part
  of each message, without the text of the exception).
\<close>

record world =
  fs :: "string \<rightharpoonup> bytes"
  rand_pos :: nat
  error_log :: "string list"

definition log_error :: "string \<Rightarrow> world \<Rightarrow> world" where
  "log_error msg w = w\<lparr>error_log := error_log w @ [msg]\<rparr>"

section \<open>Helper functions of app.py\<close>

text \<open>\<^verbatim>\<open>random.randint(a, b)\<close>: a value between \<open>a\<close> and \<open>b\<close>, both included.\<close>

definition randint :: "env \<Rightarrow> int \<Rightarrow> int \<Rightarrow> world \<Rightarrow> int \<times> world" where
  "randint env a b w =
     (a + int (random_source env (rand_pos w) mod nat (b - a + 1)),
      w\<lparr>rand_pos := Suc (rand_pos w)\<rparr>)"

text \<open>The list comprehension \<^verbatim>\<open>[str(random.randint(0, 9)) for _ in range(length)]\<close>.\<close>

fun randint_strs :: "env \<Rightarrow> nat \<Rightarrow> world \<Rightarrow> string list \<times> world" where
  "randint_strs env 0 w = ([], w)"
| "randint_strs env (Suc n) w =
     (let (d, w1) = randint env 0 9 w;
          (ds, w2) = randint_strs env n w1
      in (str d # ds, w2))"

definition generate_random_number :: "env \<Rightarrow> nat \<Rightarrow> world \<Rightarrow> string \<times> world" where
  "generate_random_number env len w =
     (let (ds, w1) = randint_strs env len w in (concat ds, w1))"

definition ALLOWED_EXTENSIONS :: "string set" where
  "ALLOWED_EXTENSIONS = {''pdf''}"

definition MAX_FILE_SIZE :: nat where
  "MAX_FILE_SIZE = 2 * 1024 * 1024"

definition allowed_file :: "string \<Rightarrow> bool" where
  "allowed_file fname \<longleftrightarrow>
     CHR ''.'' \<in> set fname \<and> str_lower (rsplit1 fname CHR ''.'' ! 1) \<in> ALLOWED_EXTENSIONS"

section \<open>extract_images_from_pdf\<close>

text \<open>
  The local variables of \<^verbatim>\<open>extract_images_from_pdf\<close> that the loops update, with the
  world. A step of a loop returns \<open>Inr\<close> of the new state when it completes and \<open>Inl\<close> of
  the state reached when an exception leaves it: the handler of the outer \<^verbatim>\<open>try\<close>
  returns \<^verbatim>\<open>extracted_files\<close> as it is at that moment.
\<close>

record loop_state =
  extracted_files :: "string list"
  seen_images :: "64 word set"
  image_count :: nat
  world :: world

text \<open>
  Lines 56 to 62, the body of the inner \<^verbatim>\<open>try\<close>: \<open>None\<close> when opening, converting or
  saving raises.
\<close>

definition convert_jp2 :: "env \<Rightarrow> bytes \<Rightarrow> bytes option" where
  "convert_jp2 env image_data =
     (case pil_open env image_data of
        None \<Rightarrow> None
      | Some img \<Rightarrow>
          (case (if mode img \<in> set [''RGBA'', ''P''] then pil_convert env img ''RGB'' else Some img) of
             None \<Rightarrow> None
           | Some img1 \<Rightarrow> pil_save env img1 ''PNG''))"

text \<open>
  Lines 67 to 81: the name of the output file, the write, and the two updates that
  follow a successful write. A failing \<^verbatim>\<open>open\<close> raises, after the random number was
  drawn.
\<close>

definition name_and_write ::
  "env \<Rightarrow> string \<Rightarrow> loop_state \<Rightarrow> bytes \<Rightarrow> string \<Rightarrow> loop_state + loop_state" where
  "name_and_write env output_path st image_data ext =
     (let (random_number, w1) = generate_random_number env 30 (world st);
          fname = (if image_count st = 0 then ''user-img-'' @ random_number @ ext
                   else if image_count st = 1 then ''sign-img-'' @ random_number @ ext
                   else random_number @ ext);
          file_path = path_join output_path fname
      in if writable env file_path
         then Inr (st\<lparr>extracted_files := extracted_files st @ [fname],
                       image_count := image_count st + 1,
                       world := w1\<lparr>fs := (fs w1)(file_path \<mapsto> image_data)\<rparr>\<rparr>)
         else Inl (st\<lparr>world := w1\<rparr>))"

text \<open>Lines 45 to 81: the body of the inner loop.\<close>

definition process_image ::
  "env \<Rightarrow> string \<Rightarrow> loop_state \<Rightarrow> embedded_image \<Rightarrow> loop_state + loop_state" where
  "process_image env output_path st im =
     (let image_data = data im;
          image_hash = py_hash env image_data
      in if image_hash \<in> seen_images st then Inr st
         else
           (let st1 = st\<lparr>seen_images := insert image_hash (seen_images st)\<rparr>;
                ext = str_lower (snd (splitext (name im)))
            in if ext \<in> set [''.jp2'', ''.jpx'']
               then (case convert_jp2 env image_data of
                       Some png \<Rightarrow> name_and_write env output_path st1 png ''.png''
                     | None \<Rightarrow>
                         Inr (st1\<lparr>world := log_error ''JP2 Conversion Failed'' (world st1)\<rparr>))
               else name_and_write env output_path st1 image_data ext))"

text \<open>A \<^verbatim>\<open>for\<close> loop: the body runs on each item in turn until one raises.\<close>

fun for_each :: "('s \<Rightarrow> 'a \<Rightarrow> 's + 's) \<Rightarrow> 's \<Rightarrow> 'a list \<Rightarrow> 's + 's" where
  "for_each body st [] = Inr st"
| "for_each body st (x # xs) =
     (case body st x of Inl e \<Rightarrow> Inl e | Inr st1 \<Rightarrow> for_each body st1 xs)"

definition for_loop :: "('s \<Rightarrow> 'a \<Rightarrow> 's + 's) \<Rightarrow> 's \<Rightarrow> 'a iterable \<Rightarrow> 's + 's" where
  "for_loop body st it =
     (case for_each body st (items it) of
        Inl e \<Rightarrow> Inl e
      | Inr st1 \<Rightarrow> if raises it then Inl st1 else Inr st1)"

text \<open>\<^verbatim>\<open>PdfReader(pdf_file_path)\<close>: the file is read, then parsed; either can raise.\<close>

definition PdfReader :: "env \<Rightarrow> world \<Rightarrow> string \<Rightarrow> pdf_reader option" where
  "PdfReader env w pdf_file_path =
     (case fs w pdf_file_path of None \<Rightarrow> None | Some bs \<Rightarrow> pdf_parse env bs)"

definition initial_state :: "world \<Rightarrow> loop_state" where
  "initial_state w = \<lparr>extracted_files = [], seen_images = {}, image_count = 0, world = w\<rparr>"

definition extract_images_from_pdf ::
  "env \<Rightarrow> world \<Rightarrow> string \<Rightarrow> string \<Rightarrow> string list \<times> world" where
  "extract_images_from_pdf env w pdf_file_path output_path =
     (case PdfReader env w pdf_file_path of
        None \<Rightarrow> ([], log_error ''Failed to extract images'' w)
      | Some reader \<Rightarrow>
          (case for_loop (\<lambda>st pg. for_loop (process_image env output_path) st (images pg))
                  (initial_state w) (pages reader) of
             Inl st \<Rightarrow> (extracted_files st, log_error ''Failed to extract images'' (world st))
           | Inr st \<Rightarrow> (extracted_files st, world st)))"

section \<open>Routes\<close>

datatype json = JString string | JArray "json list" | JObject "(string \<times> json) list"

text \<open>
  What a view function returns to Flask: a JSON body with a status, a file sent as an
  attachment, a not-found error, or a rendered page.
\<close>

datatype response =
  Json "json dict" nat
| Attachment bytes
| NotFound
| Html string

definition make_response :: "json dict \<Rightarrow> nat \<Rightarrow> response" where
  "make_response d status = Json (dict_set d ''TG_Channel'' (JString ''@UNKNOWN_X_1337_BOT'')) status"

definition home :: response where
  "home = make_response [(''status'', JString ''Images Extractor Active'')] 200"

text \<open>An uploaded file (\<^verbatim>\<open>FileStorage\<close>) and the part of a request the route reads.\<close>

record file_storage =
  filename :: string
  content :: bytes

record request =
  files :: "string \<rightharpoonup> file_storage"

definition UPLOAD_FOLDER :: "env \<Rightarrow> string" where
  "UPLOAD_FOLDER env = path_join (cwd env) ''uploads''"

definition EXTRACTED_FOLDER :: "env \<Rightarrow> string" where
  "EXTRACTED_FOLDER env = path_join (cwd env) ''images''"

text \<open>Lines 128 to 131: \<^verbatim>\<open>os.remove\<close> inside its \<^verbatim>\<open>try\<close>.\<close>

definition remove_pdf :: "env \<Rightarrow> world \<Rightarrow> string \<Rightarrow> world" where
  "remove_pdf env w pdf_path =
     (if fs w pdf_path \<noteq> None \<and> removable env pdf_path then w\<lparr>fs := (fs w)(pdf_path := None)\<rparr>
      else log_error ''Failed to delete PDF'' w)"

text \<open>Lines 133 to 148: the response built from the list of extracted files.\<close>

definition images_response :: "env \<Rightarrow> string list \<Rightarrow> response" where
  "images_response env extracted_images =
     (if extracted_images \<noteq> [] then
        (let d0 = [];
             d1 = (if length extracted_images \<ge> 1
                   then dict_set d0 ''user-image'' (JString (url_for_download env (extracted_images ! 0)))
                   else d0);
             d2 = (if length extracted_images \<ge> 2
                   then dict_set d1 ''sign-image'' (JString (url_for_download env (extracted_images ! 1)))
                   else d1);
             d3 = (if length extracted_images > 2
                   then dict_set d2 ''extra-images''
                          (JArray (map (\<lambda>f. JString (url_for_download env f)) (drop 2 extracted_images)))
                   else d2)
         in make_response
              [(''message'', JString ''Images extracted successfully''),
               (''totalImages'', JString (str (int (length extracted_images)))),
               (''images'', JObject d3)] 200)
      else make_response [(''message'', JString ''No images found in the PDF'')] 200)"

text \<open>
  A view function either returns a response or lets an exception escape to Flask.
\<close>

datatype exn = OSError

text \<open>
  Lines 119 to 148 of \<^verbatim>\<open>upload_file\<close>, reached when the four checks have passed: the
  upload is saved under a random name (lines 120 and 121 give the path), the images
  are extracted, the saved file is removed, and the response is built. \<^verbatim>\<open>file.save\<close>
  is not inside a \<^verbatim>\<open>try\<close>: when it raises, the exception leaves the view function.
\<close>

definition temporary_pdf_path :: "env \<Rightarrow> world \<Rightarrow> string \<times> world" where
  "temporary_pdf_path env w =
     (let (random_number, w1) = generate_random_number env 30 w;
          pdf_filename = random_number @ ''.pdf''
      in (path_join (UPLOAD_FOLDER env) pdf_filename, w1))"

definition upload_file_accepted :: "env \<Rightarrow> world \<Rightarrow> file_storage \<Rightarrow> (exn + response) \<times> world" where
  "upload_file_accepted env w file =
     (let (pdf_path, w1) = temporary_pdf_path env w
      in if \<not> writable env pdf_path then (Inl OSError, w1)
         else
           (let w2 = w1\<lparr>fs := (fs w1)(pdf_path \<mapsto> content file)\<rparr>;
                (extracted_images, w3) = extract_images_from_pdf env w2 pdf_path (EXTRACTED_FOLDER env);
                w4 = remove_pdf env w3 pdf_path
            in (Inr (images_response env extracted_images), w4)))"

definition upload_file :: "env \<Rightarrow> world \<Rightarrow> request \<Rightarrow> (exn + response) \<times> world" where
  "upload_file env w req =
     (case files req ''file'' of
        None \<Rightarrow> (Inr (make_response [(''error'', JString ''No file part'')] 400), w)
      | Some file \<Rightarrow>
          if filename file = [] then
            (Inr (make_response [(''error'', JString ''No selected file'')] 400), w)
          else if \<not> allowed_file (filename file) then
            (Inr (make_response [(''error'', JString ''Invalid file type'')] 400), w)
          else
            (let size = length (content file)
             in if size > MAX_FILE_SIZE then
                  (Inr (make_response [(''error'', JString ''File size exceeds 2 MB limit'')] 400), w)
                else upload_file_accepted env w file))"

text \<open>
  \<^verbatim>\<open>send_from_directory\<close>: the file as an attachment, or a not-found error (the path
  checks of the serving primitive are not modelled).
\<close>

definition download_file :: "env \<Rightarrow> world \<Rightarrow> string \<Rightarrow> response" where
  "download_file env w fname =
     (case fs w (path_join (EXTRACTED_FOLDER env) fname) of
        None \<Rightarrow> NotFound
      | Some bs \<Rightarrow> Attachment bs)"

definition upload_page :: "env \<Rightarrow> response" where
  "upload_page env = Html (index_html env)"

section \<open>Notions used to state the properties\<close>

text \<open>
  The images of a document in the order the nested loops meet them: page order, then
  the order inside the page, up to the first iteration that raises.
\<close>

fun all_images_of :: "page list \<Rightarrow> bool \<Rightarrow> embedded_image iterable" where
  "all_images_of [] r = Iterable [] r"
| "all_images_of (pg # pgs) r =
     (if raises (images pg) then Iterable (items (images pg)) True
      else Iterable (items (images pg) @ items (all_images_of pgs r)) (raises (all_images_of pgs r)))"

definition enumerated_images :: "pdf_reader \<Rightarrow> embedded_image iterable" where
  "enumerated_images reader = all_images_of (items (pages reader)) (raises (pages reader))"

text \<open>The test of line 54 on an image.\<close>

definition jp2_family :: "embedded_image \<Rightarrow> bool" where
  "jp2_family im \<longleftrightarrow> str_lower (snd (splitext (name im))) \<in> set [''.jp2'', ''.jpx'']"

text \<open>
  The state of the loops when they reach the image at position \<open>k\<close> (\<open>Inl\<close> when an
  earlier image raised), and the filename that the image at position \<open>k\<close> appends to
  \<^verbatim>\<open>extracted_files\<close>, if it appends one.
\<close>

definition state_before ::
  "env \<Rightarrow> string \<Rightarrow> world \<Rightarrow> embedded_image list \<Rightarrow> nat \<Rightarrow> loop_state + loop_state" where
  "state_before env output_path w imgs k =
     for_each (process_image env output_path) (initial_state w) (take k imgs)"

definition output_at ::
  "env \<Rightarrow> string \<Rightarrow> world \<Rightarrow> embedded_image list \<Rightarrow> nat \<Rightarrow> string option" where
  "output_at env output_path w imgs k =
     (if k < length imgs then
        (case state_before env output_path w imgs k of
           Inl e \<Rightarrow> None
         | Inr st \<Rightarrow>
             (case process_image env output_path st (imgs ! k) of
                Inl e \<Rightarrow> None
              | Inr st1 \<Rightarrow>
                  if length (extracted_files st) < length (extracted_files st1)
                  then Some (last (extracted_files st1)) else None))
      else None)"

text \<open>The prefix of the name at a position, and the extension an image is written with.\<close>

definition position_prefix :: "nat \<Rightarrow> string" where
  "position_prefix k = (if k = 0 then ''user-img-'' else if k = 1 then ''sign-img-'' else [])"

definition output_extension :: "embedded_image \<Rightarrow> string" where
  "output_extension im =
     (if jp2_family im then ''.png'' else str_lower (snd (splitext (name im))))"

definition is_digit :: "char \<Rightarrow> bool" where
  "is_digit c \<longleftrightarrow> c \<in> set ''0123456789''"

text \<open>
  The colour modes of the imaging library that the words "an indexed or alpha-channel
  mode" cover: the palette modes \<^verbatim>\<open>P\<close> and \<^verbatim>\<open>PA\<close>, and the modes with an alpha band
  \<^verbatim>\<open>RGBA\<close>, \<^verbatim>\<open>LA\<close>, \<^verbatim>\<open>PA\<close>, \<^verbatim>\<open>RGBa\<close> and \<^verbatim>\<open>La\<close>.
\<close>

definition indexed_or_alpha_mode :: "string \<Rightarrow> bool" where
  "indexed_or_alpha_mode m \<longleftrightarrow> m \<in> set [''P'', ''PA'', ''RGBA'', ''LA'', ''RGBa'', ''La'']"

definition json_body :: "response \<Rightarrow> json dict option" where
  "json_body r = (case r of Json d status \<Rightarrow> Some d | _ \<Rightarrow> None)"

definition http_status :: "response \<Rightarrow> nat" where
  "http_status r = (case r of Json d status \<Rightarrow> status | NotFound \<Rightarrow> 404 | _ \<Rightarrow> 200)"

text \<open>
  The bytes an image is written with, when it is written: the converted payload for
  the JPEG2000 family (\<open>None\<close> when the conversion raises), the payload itself
  otherwise. And the name given to the next file written from a state.
\<close>

definition output_bytes :: "env \<Rightarrow> embedded_image \<Rightarrow> bytes option" where
  "output_bytes env im = (if jp2_family im then convert_jp2 env (data im) else Some (data im))"

definition next_filename :: "env \<Rightarrow> loop_state \<Rightarrow> string \<Rightarrow> string" where
  "next_filename env st ext =
     position_prefix (image_count st) @ fst (generate_random_number env 30 (world st)) @ ext"

text \<open>
  The shape of what \<open>splitext\<close> returns as an extension: nothing, or a dot followed by
  characters that are neither dots nor separators.
\<close>

definition is_extension :: "string \<Rightarrow> bool" where
  "is_extension e \<longleftrightarrow>
     e = [] \<or> (hd e = CHR ''.'' \<and> CHR ''.'' \<notin> set (tl e) \<and> CHR ''/'' \<notin> set (tl e))"

text \<open>The state a loop ends in, whether it completed or was left by an exception.\<close>

definition state_of :: "'s + 's \<Rightarrow> 's" where
  "state_of r = (case r of Inl st \<Rightarrow> st | Inr st \<Rightarrow> st)"

section \<open>Example surroundings\<close>

text \<open>
  Surroundings in which every library call succeeds: the fingerprint of a payload is
  its length, the first byte of a payload selects the colour mode of the decoded
  picture, and the encoder writes the mode in front of the raster.
\<close>

definition example_reader :: pdf_reader where
  "example_reader =
     \<lparr>pages = Iterable
        [\<lparr>images = Iterable [\<lparr>data = [1], name = ''Im0.png''\<rparr>] False\<rparr>,
         \<lparr>images = Iterable [\<lparr>data = [1], name = ''Im1.png''\<rparr>,
                             \<lparr>data = [2, 2], name = ''Im2.JPG''\<rparr>] False\<rparr>] False\<rparr>"

definition example_env :: env where
  "example_env =
     \<lparr>pdf_parse = (\<lambda>bs. if bs = [] then None else Some example_reader),
      py_hash = (\<lambda>bs. of_nat (length bs)),
      pil_open = (\<lambda>bs. case bs of
                          [] \<Rightarrow> None
                        | b # rest \<Rightarrow>
                            Some \<lparr>mode = (if b = 1 then ''RGBA'' else if b = 2 then ''LA'' else ''RGB''),
                                  pixels = rest\<rparr>),
      pil_convert = (\<lambda>img m. Some (img\<lparr>mode := m\<rparr>)),
      pil_save = (\<lambda>img fmt. Some (of_nat (length (mode img)) # pixels img)),
      writable = (\<lambda>p. True),
      removable = (\<lambda>p. True),
      random_source = (\<lambda>i. i),
      cwd = ''/srv/app'',
      url_for_download = (\<lambda>f. ''http://localhost:5000/images/'' @ f),
      index_html = ''<html></html>''\<rparr>"

definition example_world :: world where
  "example_world = \<lparr>fs = Map.empty, rand_pos = 0, error_log = []\<rparr>"

definition example_request :: "string \<Rightarrow> bytes \<Rightarrow> request" where
  "example_request fname bs = \<lparr>files = [''file'' \<mapsto> \<lparr>filename = fname, content = bs\<rparr>]\<rparr>"

section \<open>Library facts\<close>

subsection \<open>Strings\<close>

lemma lower_char_dot: "lower_char c = CHR ''.'' \<longleftrightarrow> c = CHR ''.''"
  by (auto simp: lower_char_def split: if_splits)

lemma lower_char_slash: "lower_char c = CHR ''/'' \<longleftrightarrow> c = CHR ''/''"
  by (auto simp: lower_char_def split: if_splits)

lemma lower_char_idem: "lower_char (lower_char c) = lower_char c"
  by (auto simp: lower_char_def split: if_splits)

lemma str_lower_idem: "str_lower (str_lower s) = str_lower s"
  by (simp add: str_lower_def lower_char_idem)

lemma in_image_eq: "y \<in> f ` A \<longleftrightarrow> (\<exists>c \<in> A. f c = y)"
  by blast

lemma dot_in_str_lower: "CHR ''.'' \<in> set (str_lower s) \<longleftrightarrow> CHR ''.'' \<in> set s"
proof -
  have "CHR ''.'' \<in> lower_char ` set s \<longleftrightarrow> (\<exists>c \<in> set s. lower_char c = CHR ''.'')"
    by (rule in_image_eq)
  then show ?thesis by (simp add: str_lower_def lower_char_dot)
qed

lemma slash_in_str_lower: "CHR ''/'' \<in> set (str_lower s) \<longleftrightarrow> CHR ''/'' \<in> set s"
proof -
  have "CHR ''/'' \<in> lower_char ` set s \<longleftrightarrow> (\<exists>c \<in> set s. lower_char c = CHR ''/'')"
    by (rule in_image_eq)
  then show ?thesis by (simp add: str_lower_def lower_char_slash)
qed

lemma is_extension_str_lower: "is_extension e \<Longrightarrow> is_extension (str_lower e)"
proof (cases e)
  case Nil
  then show ?thesis by (simp add: is_extension_def str_lower_def)
next
  case (Cons c t)
  assume "is_extension e"
  with Cons have "c = CHR ''.''" "CHR ''.'' \<notin> set t" "CHR ''/'' \<notin> set t"
    by (auto simp: is_extension_def)
  moreover have "str_lower e = lower_char c # str_lower t"
    using Cons by (simp add: str_lower_def)
  ultimately show ?thesis
    by (simp add: is_extension_def dot_in_str_lower slash_in_str_lower lower_char_dot)
qed

lemma rfind_notin: "c \<notin> set p \<Longrightarrow> rfind p c = - 1"
  by (simp add: rfind_def)

lemma rfind_last: "c \<notin> set ys \<Longrightarrow> rfind (xs @ c # ys) c = int (length xs)"
proof -
  assume a: "c \<notin> set ys"
  have "takeWhile (\<lambda>x. x \<noteq> c) (rev ys @ c # rev xs) = rev ys"
    using a by (intro takeWhile_tail[THEN trans]) auto
  then show ?thesis by (simp add: rfind_def)
qed

lemma rfind_ge: "- 1 \<le> rfind p c"
proof (cases "c \<in> set p")
  case True
  then obtain xs ys where "p = xs @ c # ys" "c \<notin> set ys"
    using split_list_last by fastforce
  then show ?thesis by (simp add: rfind_last)
next
  case False
  then show ?thesis by (simp add: rfind_notin)
qed

lemma splitext_no_dot: "CHR ''.'' \<notin> set p \<Longrightarrow> splitext p = (p, [])"
  using rfind_ge[of p "CHR ''/''"] by (simp add: splitext_def rfind_notin Let_def)

lemma splitext_is_extension: "is_extension (snd (splitext p))"
proof (cases "CHR ''.'' \<in> set p")
  case False
  then show ?thesis by (simp add: splitext_no_dot is_extension_def)
next
  case True
  then obtain xs ys where p: "p = xs @ CHR ''.'' # ys" and ys: "CHR ''.'' \<notin> set ys"
    using split_list_last by fastforce
  have dot: "rfind p CHR ''.'' = int (length xs)" using p ys by (simp add: rfind_last)
  show ?thesis
  proof (cases "rfind p CHR ''.'' > rfind p CHR ''/''")
    case False
    then show ?thesis by (simp add: splitext_def Let_def is_extension_def)
  next
    case gt: True
    have "CHR ''/'' \<notin> set ys"
    proof
      assume "CHR ''/'' \<in> set ys"
      then obtain ys1 ys2 where y: "ys = ys1 @ CHR ''/'' # ys2" and "CHR ''/'' \<notin> set ys2"
        using split_list_last by fastforce
      then have "rfind ((xs @ CHR ''.'' # ys1) @ CHR ''/'' # ys2) CHR ''/'' = int (length (xs @ CHR ''.'' # ys1))"
        by (intro rfind_last)
      then have "rfind p CHR ''/'' = int (length xs) + 1 + int (length ys1)"
        using p y by simp
      with gt dot show False by simp
    qed
    moreover have "drop (nat (rfind p CHR ''.'')) p = CHR ''.'' # ys"
      using dot p by simp
    ultimately show ?thesis using ys
      by (auto simp: splitext_def Let_def is_extension_def)
  qed
qed

lemma splitext_stem_ext:
  assumes "stem \<noteq> []" "CHR ''.'' \<notin> set stem" "CHR ''/'' \<notin> set stem" "is_extension e"
  shows "splitext (stem @ e) = (stem, e)"
proof (cases e)
  case Nil
  then show ?thesis using assms by (simp add: splitext_no_dot)
next
  case (Cons c t)
  with assms(4) have e: "e = CHR ''.'' # t" and t: "CHR ''.'' \<notin> set t" "CHR ''/'' \<notin> set t"
    by (auto simp: is_extension_def)
  have dot: "rfind (stem @ e) CHR ''.'' = int (length stem)"
    unfolding e using t by (intro rfind_last)
  have sep: "rfind (stem @ e) CHR ''/'' = - 1"
    using assms(3) t e by (intro rfind_notin) auto
  have "list_ex (\<lambda>x. x \<noteq> CHR ''.'') stem"
    using assms(1,2) by (cases stem) (auto simp: list_ex_iff)
  then show ?thesis
    by (simp add: splitext_def dot sep Let_def)
qed

subsection \<open>Random digits\<close>

lemma is_digit_digit_char: "n < 10 \<Longrightarrow> is_digit (digit_char n)"
proof -
  assume "n < 10"
  then have "n \<in> {0,1,2,3,4,5,6,7,8,9}" by auto
  then show ?thesis by (auto simp: is_digit_def digit_char_def)
qed

lemma str_digit: "0 \<le> d \<Longrightarrow> d < 10 \<Longrightarrow> str d = [digit_char (nat d)]"
proof -
  assume a: "0 \<le> d" "d < 10"
  then have "nat d < 10" by simp
  then have "str_nat (nat d) = [digit_char (nat d)]"
    by (subst str_nat.simps) simp
  then show ?thesis using a by (simp add: str_def)
qed

lemma randint_range: "a \<le> b \<Longrightarrow> a \<le> fst (randint env a b w) \<and> fst (randint env a b w) \<le> b"
proof -
  assume "a \<le> b"
  then have "random_source env (rand_pos w) mod nat (b - a + 1) < nat (b - a + 1)" by simp
  then have "int (random_source env (rand_pos w) mod nat (b - a + 1)) < b - a + 1"
    using \<open>a \<le> b\<close> by linarith
  then show ?thesis by (simp add: randint_def)
qed

lemma randint_world: "snd (randint env a b w) = w\<lparr>rand_pos := Suc (rand_pos w)\<rparr>"
  by (simp add: randint_def)

lemma randint_strs_props:
  "randint_strs env n w = (ds, w1) \<Longrightarrow>
     length ds = n \<and> (\<forall>s \<in> set ds. \<exists>c. s = [c] \<and> is_digit c) \<and> w1 = w\<lparr>rand_pos := rand_pos w + n\<rparr>"
proof (induction n arbitrary: w ds w1)
  case 0
  then show ?case by simp
next
  case (Suc n)
  obtain d wa where r: "randint env 0 9 w = (d, wa)" by (cases "randint env 0 9 w")
  obtain ds' wb where rs: "randint_strs env n wa = (ds', wb)" by (cases "randint_strs env n wa")
  from Suc.prems r rs have ds: "ds = str d # ds'" and w1: "w1 = wb" by auto
  from randint_range[of 0 9 env w] r have "0 \<le> d" "d < 10" by auto
  then have "str d = [digit_char (nat d)]" "is_digit (digit_char (nat d))"
    by (auto simp: str_digit intro: is_digit_digit_char)
  moreover have "wa = w\<lparr>rand_pos := Suc (rand_pos w)\<rparr>" using randint_world[of env 0 9 w] r by simp
  ultimately show ?case using Suc.IH[OF rs] ds w1 by auto
qed

lemma generate_random_number_props:
  "generate_random_number env n w = (s, w1) \<Longrightarrow>
     length s = n \<and> (\<forall>c \<in> set s. is_digit c) \<and> w1 = w\<lparr>rand_pos := rand_pos w + n\<rparr>"
proof -
  assume a: "generate_random_number env n w = (s, w1)"
  obtain ds wa where rs: "randint_strs env n w = (ds, wa)" by (cases "randint_strs env n w")
  from a rs have s: "s = concat ds" and w1: "w1 = wa" by (auto simp: generate_random_number_def)
  from randint_strs_props[OF rs] have len: "length ds = n"
    and dig: "\<forall>x \<in> set ds. \<exists>c. x = [c] \<and> is_digit c" and wa: "wa = w\<lparr>rand_pos := rand_pos w + n\<rparr>"
    by auto
  have "length (concat ds) = length ds" using dig
    by (induction ds) auto
  moreover have "\<forall>c \<in> set (concat ds). is_digit c" using dig by fastforce
  ultimately show ?thesis using s w1 len wa by simp
qed

subsection \<open>Dictionaries and responses\<close>

lemma dict_get_dict_set: "dict_get (dict_set d k v) k = Some v"
  by (induction d) (auto simp: dict_get_def)

lemma json_body_make_response:
  "json_body (make_response d s) = Some (dict_set d ''TG_Channel'' (JString ''@UNKNOWN_X_1337_BOT''))"
  by (simp add: json_body_def make_response_def)

lemma make_response_tag:
  "json_body (make_response d s) = Some b \<Longrightarrow>
     dict_get b ''TG_Channel'' = Some (JString ''@UNKNOWN_X_1337_BOT'')"
  by (auto simp: json_body_make_response dict_get_dict_set)

lemma images_response_is_make_response:
  "\<exists>d. images_response env xs = make_response d 200"
  by (auto simp: images_response_def Let_def)

lemma upload_file_accepted_cases:
  "fst (upload_file_accepted env w file) = Inl OSError \<or>
   (\<exists>d. fst (upload_file_accepted env w file) = Inr (make_response d 200))"
  using images_response_is_make_response
  by (auto simp: upload_file_accepted_def Let_def split: prod.splits)

lemma upload_file_cases:
  "fst (upload_file env w req) = Inl OSError \<or>
   (\<exists>d s. fst (upload_file env w req) = Inr (make_response d s))"
  using upload_file_accepted_cases[of env w]
  by (auto simp: upload_file_def Let_def split: option.splits)

lemma allowed_file_example: "allowed_file ''a.pdf''"
  by (simp add: allowed_file_def rsplit1_def str_lower_def lower_char_def ALLOWED_EXTENSIONS_def)

lemma not_allowed_file_example: "\<not> allowed_file ''a.txt''"
  by (simp add: allowed_file_def rsplit1_def str_lower_def lower_char_def ALLOWED_EXTENSIONS_def)

section \<open>Facts about the extraction loops\<close>

subsection \<open>Loops\<close>

lemma for_each_append:
  "for_each body st (xs @ ys) =
     (case for_each body st xs of Inl e \<Rightarrow> Inl e | Inr st1 \<Rightarrow> for_each body st1 ys)"
  by (induction xs arbitrary: st) (auto split: sum.splits)

lemma for_each_snoc:
  "for_each body st (xs @ [x]) =
     (case for_each body st xs of Inl e \<Rightarrow> Inl e | Inr st1 \<Rightarrow> body st1 x)"
  by (simp add: for_each_append split: sum.splits)

lemma for_each_invariant:
  assumes "I st" and "\<And>s x. I s \<Longrightarrow> I (state_of (body s x))"
  shows "I (state_of (for_each body st xs))"
  using assms(1)
proof (induction xs arbitrary: st)
  case Nil
  then show ?case by (simp add: state_of_def)
next
  case (Cons x xs)
  from assms(2)[OF Cons.prems, of x] show ?case
    using Cons.IH by (cases "body st x") (auto simp: state_of_def)
qed

lemma for_loop_state_of:
  "state_of (for_loop body st (Iterable xs r)) = state_of (for_each body st xs)"
  by (auto simp: for_loop_def state_of_def split: sum.splits)

lemma for_loop_Iterable:
  "for_loop body st (Iterable xs r) =
     (case for_each body st xs of Inl e \<Rightarrow> Inl e | Inr st1 \<Rightarrow> if r then Inl st1 else Inr st1)"
  by (simp add: for_loop_def cong: sum.case_cong)

lemma nested_loops_flat:
  "for_loop (\<lambda>st pg. for_loop body st (images pg)) st (Iterable pgs r) =
   for_loop body st (all_images_of pgs r)"
proof -
  define outer where "outer = (\<lambda>st (pg :: page). for_loop body st (images pg))"
  have "for_loop outer st (Iterable pgs r) = for_loop body st (all_images_of pgs r)"
  proof (induction pgs arbitrary: st)
    case Nil
    then show ?case by (simp add: for_loop_def)
  next
    case (Cons pg pgs)
    have IH: "(case for_each outer s pgs of
                 Inl e \<Rightarrow> Inl e | Inr st1 \<Rightarrow> if r then Inl st1 else Inr st1) =
               (case for_each body s (items (all_images_of pgs r)) of
                 Inl e \<Rightarrow> Inl e | Inr st1 \<Rightarrow> if raises (all_images_of pgs r) then Inl st1 else Inr st1)" for s
      using Cons.IH[of s] by (simp add: for_loop_def cong: sum.case_cong)
    have head: "outer st pg =
        (case for_each body st (items (images pg)) of
           Inl e \<Rightarrow> Inl e | Inr st1 \<Rightarrow> if raises (images pg) then Inl st1 else Inr st1)"
      by (simp add: outer_def for_loop_def)
    show ?case
    proof (cases "for_each body st (items (images pg))")
      case (Inl e)
      then show ?thesis by (simp add: for_loop_def for_each_append head cong: sum.case_cong)
    next
      case (Inr s)
      show ?thesis
      proof (cases "raises (images pg)")
        case True
        then show ?thesis using Inr by (simp add: for_loop_def head cong: sum.case_cong)
      next
        case False
        then show ?thesis using Inr IH[of s]
          by (simp add: for_loop_def for_each_append head cong: sum.case_cong)
      qed
    qed
  qed
  then show ?thesis by (simp add: outer_def)
qed

lemma extract_flat:
  assumes "PdfReader env w p = Some reader" and "enumerated_images reader = Iterable imgs r"
  shows "fst (extract_images_from_pdf env w p out) =
           extracted_files (state_of (for_each (process_image env out) (initial_state w) imgs))"
    and "fs (snd (extract_images_from_pdf env w p out)) =
           fs (world (state_of (for_each (process_image env out) (initial_state w) imgs)))"
proof -
  have "pages reader = Iterable (items (pages reader)) (raises (pages reader))" by simp
  then have "for_loop (\<lambda>st pg. for_loop (process_image env out) st (images pg)) (initial_state w) (pages reader)
      = for_loop (process_image env out) (initial_state w) (Iterable imgs r)"
    using nested_loops_flat[of "process_image env out" "initial_state w" "items (pages reader)" "raises (pages reader)"]
      assms(2) by (simp add: enumerated_images_def)
  then show "fst (extract_images_from_pdf env w p out) =
           extracted_files (state_of (for_each (process_image env out) (initial_state w) imgs))"
    and "fs (snd (extract_images_from_pdf env w p out)) =
           fs (world (state_of (for_each (process_image env out) (initial_state w) imgs)))"
    using assms(1)
    by (auto simp: extract_images_from_pdf_def for_loop_def state_of_def log_error_def split: sum.splits)
qed

subsection \<open>One image\<close>

lemma name_and_write_eq:
  "name_and_write env out st bs ext =
     (if writable env (path_join out (next_filename env st ext))
      then Inr (st\<lparr>extracted_files := extracted_files st @ [next_filename env st ext],
                    image_count := image_count st + 1,
                    world := (world st)\<lparr>rand_pos := rand_pos (world st) + 30,
                                        fs := (fs (world st))(path_join out (next_filename env st ext) \<mapsto> bs)\<rparr>\<rparr>)
      else Inl (st\<lparr>world := (world st)\<lparr>rand_pos := rand_pos (world st) + 30\<rparr>\<rparr>))"
proof -
  obtain rnd w1 where g: "generate_random_number env 30 (world st) = (rnd, w1)"
    by (cases "generate_random_number env 30 (world st)")
  from generate_random_number_props[OF g] have w1: "w1 = (world st)\<lparr>rand_pos := rand_pos (world st) + 30\<rparr>"
    by simp
  show ?thesis
    by (simp add: name_and_write_def next_filename_def position_prefix_def g w1 Let_def)
qed

lemma process_image_seen:
  "py_hash env (data im) \<in> seen_images st \<Longrightarrow> process_image env out st im = Inr st"
  by (simp add: process_image_def)

lemma process_image_fresh:
  "py_hash env (data im) \<notin> seen_images st \<Longrightarrow>
   process_image env out st im =
     (case output_bytes env im of
        None \<Rightarrow> Inr (st\<lparr>seen_images := insert (py_hash env (data im)) (seen_images st),
                          world := log_error ''JP2 Conversion Failed'' (world st)\<rparr>)
      | Some bs \<Rightarrow> name_and_write env out (st\<lparr>seen_images := insert (py_hash env (data im)) (seen_images st)\<rparr>)
                     bs (output_extension im))"
  by (auto simp: process_image_def output_bytes_def output_extension_def jp2_family_def Let_def
           split: option.splits)

lemma process_image_files:
  "extracted_files (state_of (process_image env out st im)) = extracted_files st \<or>
   (\<exists>st1 bs. process_image env out st im = Inr st1 \<and> py_hash env (data im) \<notin> seen_images st
      \<and> output_bytes env im = Some bs
      \<and> extracted_files st1 = extracted_files st @
           [next_filename env (st\<lparr>seen_images := insert (py_hash env (data im)) (seen_images st)\<rparr>) (output_extension im)])"
proof (cases "py_hash env (data im) \<in> seen_images st")
  case True
  then show ?thesis by (simp add: process_image_seen state_of_def)
next
  case False
  then show ?thesis
    by (cases "output_bytes env im")
       (auto simp: process_image_fresh name_and_write_eq state_of_def)
qed

lemma process_image_Inl_files:
  "process_image env out st im = Inl st1 \<Longrightarrow>
     extracted_files st1 = extracted_files st \<and> fs (world st1) = fs (world st)
     \<and> image_count st1 = image_count st"
  by (cases "py_hash env (data im) \<in> seen_images st"; cases "output_bytes env im")
     (auto simp: process_image_seen process_image_fresh name_and_write_eq split: if_splits)

lemma process_image_seen_after:
  "seen_images (state_of (process_image env out st im)) = insert (py_hash env (data im)) (seen_images st)"
  by (cases "py_hash env (data im) \<in> seen_images st"; cases "output_bytes env im")
     (auto simp: process_image_seen process_image_fresh name_and_write_eq state_of_def)

lemma process_image_count:
  "image_count st = length (extracted_files st) \<Longrightarrow>
   image_count (state_of (process_image env out st im)) =
     length (extracted_files (state_of (process_image env out st im)))"
  by (cases "py_hash env (data im) \<in> seen_images st"; cases "output_bytes env im")
     (auto simp: process_image_seen process_image_fresh name_and_write_eq state_of_def)

subsection \<open>The run over the images of a document\<close>

lemma for_each_seen:
  "for_each (process_image env out) st xs = Inr st1 \<Longrightarrow>
     seen_images st1 = seen_images st \<union> (\<lambda>im. py_hash env (data im)) ` set xs"
proof (induction xs arbitrary: st)
  case Nil
  then show ?case by simp
next
  case (Cons x xs)
  then obtain s where s: "process_image env out st x = Inr s" and r: "for_each (process_image env out) s xs = Inr st1"
    by (auto split: sum.splits)
  from process_image_seen_after[of env out st x] s
  have "seen_images s = insert (py_hash env (data x)) (seen_images st)" by (simp add: state_of_def)
  with Cons.IH[OF r] show ?case by auto
qed

lemma state_before_seen:
  assumes "state_before env out w imgs j = Inr st" "i < j" "j \<le> length imgs"
  shows "py_hash env (data (imgs ! i)) \<in> seen_images st"
proof -
  have "imgs ! i \<in> set (take j imgs)" using assms(2,3)
    by (metis in_set_conv_nth length_take min.absorb2 nth_take)
  then show ?thesis using for_each_seen[OF assms(1)[unfolded state_before_def]] by auto
qed

lemma state_before_count:
  "image_count (state_of (state_before env out w imgs k)) =
     length (extracted_files (state_of (state_before env out w imgs k)))"
  unfolding state_before_def
  by (rule for_each_invariant[where I = "\<lambda>s. image_count s = length (extracted_files s)"])
     (simp_all add: initial_state_def process_image_count)

lemma map_filter_append: "List.map_filter f (xs @ ys) = List.map_filter f xs @ List.map_filter f ys"
  by (simp add: List.map_filter_def)

lemma map_filter_cong_set: "(\<And>x. x \<in> set xs \<Longrightarrow> f x = g x) \<Longrightarrow> List.map_filter f xs = List.map_filter g xs"
  by (induction xs) (auto simp: List.map_filter_def)

lemma state_before_snoc:
  "k \<le> length xs \<Longrightarrow> state_before env out w (xs @ [x]) k = state_before env out w xs k"
  by (simp add: state_before_def)

lemma output_at_snoc:
  "k < length xs \<Longrightarrow> output_at env out w (xs @ [x]) k = output_at env out w xs k"
  by (simp add: output_at_def state_before_snoc nth_append cong: sum.case_cong)

lemma output_trace:
  "extracted_files (state_of (for_each (process_image env out) (initial_state w) imgs)) =
     List.map_filter (output_at env out w imgs) [0..<length imgs]"
proof (induction imgs rule: rev_induct)
  case Nil
  then show ?case by (simp add: state_of_def initial_state_def List.map_filter_def)
next
  case (snoc x xs)
  let ?run = "for_each (process_image env out) (initial_state w) xs"
  have old: "List.map_filter (output_at env out w (xs @ [x])) [0..<length xs] =
             List.map_filter (output_at env out w xs) [0..<length xs]"
    by (rule map_filter_cong_set) (simp add: output_at_snoc)
  have sb: "state_before env out w (xs @ [x]) (length xs) = ?run"
    by (simp add: state_before_def)
  have last: "extracted_files (state_of (for_each (process_image env out) (initial_state w) (xs @ [x]))) =
        extracted_files (state_of ?run) @ List.map_filter (output_at env out w (xs @ [x])) [length xs]"
  proof (cases ?run)
    case (Inl e)
    then show ?thesis
      by (simp add: for_each_snoc output_at_def sb List.map_filter_def state_of_def)
  next
    case (Inr st)
    show ?thesis
    proof (cases "process_image env out st x")
      case (Inl e)
      with process_image_Inl_files[OF Inl] Inr show ?thesis
        by (simp add: for_each_snoc output_at_def sb List.map_filter_def state_of_def)
    next
      case r: (Inr st1)
      from process_image_files[of env out st x] r
      have "extracted_files st1 = extracted_files st \<or> (\<exists>f. extracted_files st1 = extracted_files st @ [f])"
        by (auto simp: state_of_def)
      then show ?thesis using Inr r
        by (auto simp: for_each_snoc output_at_def sb List.map_filter_def state_of_def)
    qed
  qed
  show ?case using snoc.IH old last by (simp add: map_filter_append)
qed

lemma same_fingerprint_skipped:
  assumes "i < j" "j < length imgs" "py_hash env (data (imgs ! i)) = py_hash env (data (imgs ! j))"
  shows "output_at env out w imgs j = None"
    and "state_before env out w imgs j = Inr st \<Longrightarrow> process_image env out st (imgs ! j) = Inr st"
proof -
  have step: "process_image env out s (imgs ! j) = Inr s" if "state_before env out w imgs j = Inr s" for s
    using state_before_seen[OF that assms(1)] assms(2,3) by (simp add: process_image_seen)
  then show "state_before env out w imgs j = Inr st \<Longrightarrow> process_image env out st (imgs ! j) = Inr st"
    by simp
  show "output_at env out w imgs j = None"
    using step by (cases "state_before env out w imgs j") (auto simp: output_at_def)
qed

section \<open>The channel tag\<close>

text \<open>
  C8. Every JSON response of the service carries the field \<^verbatim>\<open>TG_Channel\<close> with the
  same constant value: whichever view function produced the response (the home route,
  the upload route on any of its paths, the download route, the upload page), if the
  response has a JSON body then that body maps \<^verbatim>\<open>TG_Channel\<close> to
  \<^verbatim>\<open>@UNKNOWN_X_1337_BOT\<close>. The download route and the upload page return no JSON.
\<close>

theorem every_json_response_has_channel_tag:
  assumes "r = home \<or> fst (upload_file env w req) = Inr r \<or> r = download_file env w fname
           \<or> r = upload_page env"
      and "json_body r = Some body"
  shows "dict_get body ''TG_Channel'' = Some (JString ''@UNKNOWN_X_1337_BOT'')"
proof -
  have nj: "json_body (download_file env w fname) = None" "json_body (upload_page env) = None"
    by (simp_all add: download_file_def upload_page_def json_body_def split: option.splits)
  from assms(1) nj assms(2) consider "r = home" | "fst (upload_file env w req) = Inr r"
    by auto
  then have "\<exists>d s. r = make_response d s"
  proof cases
    case 1
    then show ?thesis unfolding home_def by blast
  next
    case 2
    then show ?thesis using upload_file_cases[of env w req] by auto
  qed
  then show ?thesis using assms(2) make_response_tag by blast
qed

theorem every_json_response_has_channel_tag_witness:
  "json_body home = Some [(''status'', JString ''Images Extractor Active''),
                          (''TG_Channel'', JString ''@UNKNOWN_X_1337_BOT'')]
   \<and> dict_get [(''status'', JString ''Images Extractor Active''),
                (''TG_Channel'', JString ''@UNKNOWN_X_1337_BOT'')] ''TG_Channel''
       = Some (JString ''@UNKNOWN_X_1337_BOT'')
   \<and> fst (upload_file example_env example_world (example_request ''a.txt'' [1]))
       = Inr (Json [(''error'', JString ''Invalid file type''),
                    (''TG_Channel'', JString ''@UNKNOWN_X_1337_BOT'')] 400)
   \<and> dict_get [(''error'', JString ''Invalid file type''),
                (''TG_Channel'', JString ''@UNKNOWN_X_1337_BOT'')] ''TG_Channel''
       = Some (JString ''@UNKNOWN_X_1337_BOT'')"
proof -
  have h1: "json_body home = Some [(''status'', JString ''Images Extractor Active''),
                                   (''TG_Channel'', JString ''@UNKNOWN_X_1337_BOT'')]"
    by (simp add: home_def make_response_def json_body_def)
  have h2: "fst (upload_file example_env example_world (example_request ''a.txt'' [1]))
       = Inr (Json [(''error'', JString ''Invalid file type''),
                    (''TG_Channel'', JString ''@UNKNOWN_X_1337_BOT'')] 400)"
    using not_allowed_file_example
    by (simp add: upload_file_def example_request_def make_response_def)
  have b2: "json_body (Json [(''error'', JString ''Invalid file type''),
                    (''TG_Channel'', JString ''@UNKNOWN_X_1337_BOT'')] 400)
       = Some [(''error'', JString ''Invalid file type''),
               (''TG_Channel'', JString ''@UNKNOWN_X_1337_BOT'')]"
    by (simp add: json_body_def)
  have c1: "dict_get [(''status'', JString ''Images Extractor Active''),
                (''TG_Channel'', JString ''@UNKNOWN_X_1337_BOT'')] ''TG_Channel''
       = Some (JString ''@UNKNOWN_X_1337_BOT'')"
    using every_json_response_has_channel_tag[of home example_env example_world
        "example_request ''a.txt'' [1]" "''x''", OF _ h1] by simp
  have c2: "dict_get [(''error'', JString ''Invalid file type''),
                (''TG_Channel'', JString ''@UNKNOWN_X_1337_BOT'')] ''TG_Channel''
       = Some (JString ''@UNKNOWN_X_1337_BOT'')"
    using every_json_response_has_channel_tag[of _ example_env example_world
        "example_request ''a.txt'' [1]" "''x''", OF _ b2] h2 by simp
  show ?thesis using h1 h2 c1 c2 by simp
qed

end
